theory Spec2Isabelle
  imports Main
begin

section \<open>C arithmetic and library functions used by libbattery.c\<close>

text \<open>
  C's \<open>int\<close> has 32 bits here. Signed overflow is undefined in C; the compiled code
  wraps around in two's complement, and \<open>int_wrap\<close> writes that out after every
  operation of the estimator. C's \<open>/\<close> on integers truncates towards zero, HOL's
  \<open>div\<close> rounds down.
\<close>

definition int_wrap :: "int \<Rightarrow> int" where
  "int_wrap v = (v + 2 ^ 31) mod 2 ^ 32 - 2 ^ 31"

definition c_div :: "int \<Rightarrow> int \<Rightarrow> int" where
  "c_div a b = sgn a * sgn b * (\<bar>a\<bar> div \<bar>b\<bar>)"

text \<open>
  Modelled from the spec: \<open>int_sqrt\<close> is declared in battery.h or a header it pulls in,
  which is not among the sources. The spec calls it the "integer square root": the
  largest \<open>r\<close> with \<open>r * r \<le> n\<close>, computed here two bits at a time.
\<close>

fun int_sqrt_nat :: "nat \<Rightarrow> nat" where
  "int_sqrt_nat n =
     (if n < 2 then n
      else (let r = 2 * int_sqrt_nat (n div 4)
            in if (r + 1) * (r + 1) \<le> n then r + 1 else r))"

declare int_sqrt_nat.simps [simp del]

definition int_sqrt :: "int \<Rightarrow> int" where
  "int_sqrt u = int (int_sqrt_nat (nat u))"

section \<open>The voltage-based fuel estimator\<close>

text \<open>
  \<open>fuel_level_LiIon\<close>, libbattery.c lines 77 to 94. The macros \<open>max\<close> and \<open>min\<close>
  come from the missing header as well; they are the usual maximum and minimum of two
  \<open>int\<close> values. \<open>int_sqrt\<close> takes an \<open>unsigned long\<close>, so the sum with 1966
  is taken in 64 bits and cut to \<open>int\<close> by the cast.
\<close>

definition fuel_level_LiIon :: "int \<Rightarrow> int \<Rightarrow> int \<Rightarrow> int" where
  "fuel_level_LiIon mV mA mOhm =
     (let mV' = int_wrap (mV + c_div (int_wrap (mOhm * mA)) 1000);
          u = int_wrap (3870000 - int_wrap (14523 * int_wrap (37835 - int_wrap (10 * mV'))))
      in if u < 0
         then max (c_div (int_wrap (int_wrap (mV' - 3300) * ((3756 - 3300) * 1966))) 100000) 0
         else min (c_div (int_wrap (1966 + int_sqrt u)) 100) 100)"

section \<open>The attribute store\<close>

text \<open>
  The directory tree under /sys/class/power_supply, as the code sees it.
  \<open>listing\<close> is the sequence of names \<open>readdir\<close> yields, or \<open>None\<close> when
  \<open>opendir\<close> fails; \<open>attr node key\<close> is the content of the file \<open>node/key\<close>, or
  \<open>None\<close> when it cannot be opened or read.
\<close>

record store =
  listing :: "string list option"
  attr :: "string \<Rightarrow> string \<Rightarrow> string option"

text \<open>
  \<open>read_power_file\<close>, lines 38 to 54, with the 64-byte buffer every caller passes:
  at most 63 bytes are read and a terminator is appended, so what the callers compare
  and parse is the C string up to the first zero byte. The result is \<open>None\<close> where the
  function returns false.
\<close>

definition read_power_file :: "store \<Rightarrow> string \<Rightarrow> string \<Rightarrow> string option" where
  "read_power_file s node key =
     (case attr s node key of
        None \<Rightarrow> None
      | Some content \<Rightarrow> Some (takeWhile (\<lambda>c. c \<noteq> CHR 0x00) (take 63 content)))"

subsection \<open>The C library's atoi\<close>

text \<open>
  \<open>atoi\<close> skips white space, takes an optional sign and the decimal digits that
  follow, and ignores the rest of the text; without a digit there it returns 0.
  \<open>parse_int\<close> is the number it reads, \<open>None\<close> when there is none. On Linux with
  glibc, \<open>atoi\<close> is \<open>strtol\<close> converted to \<open>int\<close>: the value saturates at the
  bounds of a 64-bit \<open>long\<close> and is then cut to 32 bits.
\<close>

definition isspace :: "char \<Rightarrow> bool" where
  "isspace c \<longleftrightarrow>
     c = CHR '' '' \<or> c = CHR 0x09 \<or> c = CHR ''\<newline>'' \<or> c = CHR 0x0B \<or> c = CHR 0x0C \<or> c = CHR 0x0D"

definition isdigit :: "char \<Rightarrow> bool" where
  "isdigit c \<longleftrightarrow> (48::nat) \<le> of_char c \<and> (of_char c :: nat) \<le> 57"

fun digits_value :: "int \<Rightarrow> string \<Rightarrow> int" where
  "digits_value acc [] = acc"
| "digits_value acc (c # cs) =
     (if isdigit c then digits_value (acc * 10 + (int (of_char c) - 48)) cs else acc)"

definition parse_int :: "string \<Rightarrow> int option" where
  "parse_int str =
     (let t = dropWhile isspace str;
          neg = (case t of [] \<Rightarrow> False | c # _ \<Rightarrow> c = CHR ''-'');
          d = (case t of [] \<Rightarrow> [] | c # cs \<Rightarrow> if c = CHR ''-'' \<or> c = CHR ''+'' then cs else t)
      in case d of
           [] \<Rightarrow> None
         | c # _ \<Rightarrow> if isdigit c
                    then Some (if neg then - digits_value 0 d else digits_value 0 d)
                    else None)"

definition long_saturate :: "int \<Rightarrow> int" where
  "long_saturate v = max (- (2 ^ 63)) (min (2 ^ 63 - 1) v)"

definition int_of_long :: "int \<Rightarrow> int" where
  "int_of_long v = (v + 2 ^ 31) mod 2 ^ 32 - 2 ^ 31"

definition atoi :: "string \<Rightarrow> int" where
  "atoi str = (case parse_int str of None \<Rightarrow> 0 | Some v \<Rightarrow> int_of_long (long_saturate v))"

section \<open>The battery selector\<close>

text \<open>
  Modelled from the spec: \<open>enum battery_state\<close> is declared in battery.h, which is not
  among the sources. The source uses the five enumerators \<open>POWERSTATE_NO_BATTERY\<close>,
  \<open>POWERSTATE_UNKNOWN\<close>, \<open>POWERSTATE_CHARGING\<close>, \<open>POWERSTATE_ON_BATTERY\<close> and
  \<open>POWERSTATE_CHARGED\<close>, the spec's NoBattery, Unknown, Charging, OnBattery and Charged.
\<close>

datatype battery_state =
    POWERSTATE_NO_BATTERY
  | POWERSTATE_UNKNOWN
  | POWERSTATE_ON_BATTERY
  | POWERSTATE_CHARGING
  | POWERSTATE_CHARGED

text \<open>The three output parameters \<open>*state\<close>, \<open>*seconds\<close> and \<open>*percent\<close>.\<close>

record power_info =
  state :: battery_state
  seconds :: int
  percent :: int

text \<open>
  Lines 121 to 137: the entry is left by one of the four \<open>continue\<close> statements.
\<close>

definition skipped :: "store \<Rightarrow> string \<Rightarrow> bool" where
  "skipped s name \<longleftrightarrow>
     (if name = ''.'' \<or> name = ''..'' then True
      else case read_power_file s name ''type'' of
             None \<Rightarrow> True
           | Some str \<Rightarrow>
               if str \<noteq> ''Battery\<newline>'' then True
               else (case read_power_file s name ''scope'' of
                       None \<Rightarrow> False
                     | Some str' \<Rightarrow> str' = ''device\<newline>''))"

text \<open>Lines 140 to 152: the local \<open>st\<close>.\<close>

definition entry_state :: "store \<Rightarrow> string \<Rightarrow> battery_state" where
  "entry_state s name =
     (if read_power_file s name ''present'' = Some ''0\<newline>'' then POWERSTATE_NO_BATTERY
      else case read_power_file s name ''status'' of
             None \<Rightarrow> POWERSTATE_UNKNOWN
           | Some str \<Rightarrow>
               if str = ''Charging\<newline>'' then POWERSTATE_CHARGING
               else if str = ''Discharging\<newline>'' then POWERSTATE_ON_BATTERY
               else if str = ''Full\<newline>'' \<or> str = ''Not charging\<newline>'' then POWERSTATE_CHARGED
               else POWERSTATE_UNKNOWN)"

text \<open>Lines 154 to 159: the local \<open>pct\<close>.\<close>

definition entry_percent :: "store \<Rightarrow> string \<Rightarrow> int" where
  "entry_percent s name =
     (case read_power_file s name ''capacity'' of
        None \<Rightarrow> - 1
      | Some str \<Rightarrow> (let pct = atoi str in if pct > 100 then 100 else pct))"

text \<open>Lines 161 to 166: the local \<open>secs\<close>.\<close>

definition entry_seconds :: "store \<Rightarrow> string \<Rightarrow> int" where
  "entry_seconds s name =
     (case read_power_file s name ''time_to_empty_now'' of
        None \<Rightarrow> - 1
      | Some str \<Rightarrow> (let secs = atoi str in if secs \<le> 0 then - 1 else secs))"

text \<open>Lines 172 to 180: the flag \<open>choose\<close> (a reserved word here, hence the suffix), against the running best held in the outputs.\<close>

definition choose_flag :: "power_info \<Rightarrow> int \<Rightarrow> int \<Rightarrow> bool" where
  "choose_flag best secs pct =
     (if secs < 0 \<and> seconds best < 0
      then (if pct < 0 \<and> percent best < 0 then True
            else if pct > percent best then True
            else False)
      else if secs > seconds best then True
      else False)"

text \<open>One turn of the \<open>while\<close> loop, lines 113 to 187.\<close>

definition loop_body :: "store \<Rightarrow> power_info \<Rightarrow> string \<Rightarrow> power_info" where
  "loop_body s best name =
     (if skipped s name then best
      else (let st = entry_state s name;
                pct = entry_percent s name;
                secs = entry_seconds s name
            in if choose_flag best secs pct
               then \<lparr>state = st, seconds = secs, percent = pct\<rparr>
               else best))"

fun scan :: "store \<Rightarrow> power_info \<Rightarrow> string list \<Rightarrow> power_info" where
  "scan s best [] = best"
| "scan s best (name # names) = scan s (loop_body s best name) names"

text \<open>
  \<open>GetPowerInfo_Linux_sys_class_power_supply\<close>, lines 97 to 191. The second argument
  is what the three output parameters hold before the call; the result is the returned
  flag and what they hold after it.
\<close>

definition GetPowerInfo_Linux_sys_class_power_supply ::
    "store \<Rightarrow> power_info \<Rightarrow> bool \<times> power_info" where
  "GetPowerInfo_Linux_sys_class_power_supply s out =
     (case listing s of
        None \<Rightarrow> (False, out)
      | Some names \<Rightarrow>
          (True, scan s \<lparr>state = POWERSTATE_NO_BATTERY, seconds = - 1, percent = - 1\<rparr> names))"

section \<open>The spec's view of the selector\<close>






section \<open>Example stores\<close>

text \<open>
  An in-memory store: each entry is a directory name with its files; \<open>readdir\<close> yields
  the two pseudo-entries first.
\<close>

definition sysfs :: "(string \<times> (string \<times> string) list) list \<Rightarrow> store" where
  "sysfs entries =
     \<lparr>listing = Some (''.'' # ''..'' # map fst entries),
      attr = (\<lambda>node key. case map_of entries node of
                            None \<Rightarrow> None
                          | Some files \<Rightarrow> map_of files key)\<rparr>"

definition battery :: "(string \<times> string) list \<Rightarrow> store" where
  "battery files = sysfs [(''BAT0'', (''type'', ''Battery\<newline>'') # files)]"



definition adapter_and_controller :: store where
  "adapter_and_controller =
     sysfs [(''AC'', [(''type'', ''Mains\<newline>''), (''online'', ''1\<newline>'')]),
            (''pad'', [(''type'', ''Battery\<newline>''), (''scope'', ''device\<newline>''),
                       (''status'', ''Discharging\<newline>''), (''capacity'', ''80\<newline>'')])]"

definition controller_and_system :: store where
  "controller_and_system =
     sysfs [(''pad'', [(''type'', ''Battery\<newline>''), (''scope'', ''device\<newline>''),
                       (''status'', ''Discharging\<newline>''), (''capacity'', ''80\<newline>'')]),
            (''BAT0'', [(''type'', ''Battery\<newline>''), (''status'', ''Charging\<newline>''),
                        (''capacity'', ''50\<newline>'')])]"

definition controller_changed :: store where
  "controller_changed =
     sysfs [(''pad'', [(''type'', ''Battery\<newline>''), (''scope'', ''device\<newline>''),
                       (''status'', ''Full\<newline>''), (''capacity'', ''100\<newline>''),
                       (''time_to_empty_now'', ''9000\<newline>'')]),
            (''BAT0'', [(''type'', ''Battery\<newline>''), (''status'', ''Charging\<newline>''),
                        (''capacity'', ''50\<newline>'')])]"



definition no_sysfs :: store where
  "no_sysfs = \<lparr>listing = None, attr = (\<lambda>node key. None)\<rparr>"

definition idle :: power_info where
  "idle = \<lparr>state = POWERSTATE_CHARGED, seconds = 7, percent = 42\<rparr>"

section \<open>Properties of the estimator\<close>

lemma int_sqrt_nat_floor:
  "int_sqrt_nat n * int_sqrt_nat n \<le> n \<and> n < (int_sqrt_nat n + 1) * (int_sqrt_nat n + 1)"
proof (induction n rule: int_sqrt_nat.induct)
  case (1 n)
  show ?case
  proof (cases "n < 2")
    case True
    then have "int_sqrt_nat n = n" by (subst int_sqrt_nat.simps) simp
    moreover have "n = 0 \<or> n = 1" using True by arith
    ultimately show ?thesis by auto
  next
    case False
    define q where "q = int_sqrt_nat (n div 4)"
    have ih: "q * q \<le> n div 4" "n div 4 < (q + 1) * (q + 1)"
      using "1.IH" [OF False] by (simp_all add: q_def)
    have lo: "(2 * q) * (2 * q) \<le> n"
    proof -
      have "(2 * q) * (2 * q) = 4 * (q * q)" by simp
      also have "\<dots> \<le> 4 * (n div 4)" using ih(1) by simp
      also have "\<dots> \<le> n" by simp
      finally show ?thesis .
    qed
    have hi: "n < (2 * q + 2) * (2 * q + 2)"
    proof -
      have "n div 4 + 1 \<le> (q + 1) * (q + 1)" using ih(2) by simp
      then have "4 * (n div 4 + 1) \<le> 4 * ((q + 1) * (q + 1))" by simp
      moreover have "n < 4 * (n div 4 + 1)" by arith
      moreover have "4 * ((q + 1) * (q + 1)) = (2 * q + 2) * (2 * q + 2)"
        by (simp add: algebra_simps)
      ultimately show ?thesis by linarith
    qed
    have eq: "int_sqrt_nat n = (if (2 * q + 1) * (2 * q + 1) \<le> n then 2 * q + 1 else 2 * q)"
      using False by (subst int_sqrt_nat.simps) (simp add: q_def Let_def)
    show ?thesis
    proof (cases "(2 * q + 1) * (2 * q + 1) \<le> n")
      case True
      then have "int_sqrt_nat n = 2 * q + 1" using eq by simp
      moreover have "2 * q + 1 + 1 = 2 * q + 2" by simp
      ultimately show ?thesis using True hi by (simp del: mult_Suc mult_Suc_right)
    next
      case False
      then have "int_sqrt_nat n = 2 * q" using eq by simp
      then show ?thesis using False lo by (simp add: not_le)
    qed
  qed
qed

lemma c_div_nonneg: "0 \<le> a \<Longrightarrow> 0 < b \<Longrightarrow> c_div a b = a div b"
  by (cases "a = 0") (simp_all add: c_div_def)

lemma int_sqrt_nonneg: "0 \<le> int_sqrt u"
  by (simp add: int_sqrt_def)

lemma int_wrap_range: "- (2 ^ 31) \<le> int_wrap v \<and> int_wrap v < 2 ^ 31"
proof -
  have "0 \<le> (v + 2147483648) mod 4294967296" "(v + 2147483648) mod 4294967296 < 4294967296"
    by simp_all
  then show ?thesis
    by (simp add: int_wrap_def)
qed

lemma int_wrap_ident: "- (2 ^ 31) \<le> v \<Longrightarrow> v < 2 ^ 31 \<Longrightarrow> int_wrap v = v"
  by (simp add: int_wrap_def mod_pos_pos_trivial)

lemma int_sqrt_small:
  assumes "u < 2 ^ 31"
  shows "int_sqrt u < 46341"
proof (rule ccontr)
  assume "\<not> int_sqrt u < 46341"
  then have big: "46341 \<le> int_sqrt_nat (nat u)"
    by (simp add: int_sqrt_def)
  have "(46341::nat) * 46341 \<le> int_sqrt_nat (nat u) * int_sqrt_nat (nat u)"
    using big big by (rule mult_le_mono)
  also have "\<dots> \<le> nat u"
    using int_sqrt_nat_floor [of "nat u"] by simp
  finally have "(2147488281::nat) \<le> nat u"
    by simp
  with assms show False
    by simp
qed

lemma fuel_level_nonneg: "0 \<le> fuel_level_LiIon mV mA mOhm"
proof -
  define u where
    "u = int_wrap (3870000 - int_wrap (14523 * int_wrap (37835 - int_wrap (10 *
           int_wrap (mV + c_div (int_wrap (mOhm * mA)) 1000)))))"
  show ?thesis
  proof (cases "u < 0")
    case True
    then show ?thesis
      by (simp add: fuel_level_LiIon_def Let_def u_def [symmetric])
  next
    case False
    have "u < 2 ^ 31"
      unfolding u_def using int_wrap_range by blast
    then have small: "int_sqrt u < 46341"
      by (rule int_sqrt_small)
    have "int_wrap (1966 + int_sqrt u) = 1966 + int_sqrt u"
      using small int_sqrt_nonneg [of u] by (intro int_wrap_ident) simp_all
    moreover have "0 \<le> c_div (1966 + int_sqrt u) 100"
      using int_sqrt_nonneg [of u] by (simp add: c_div_nonneg pos_imp_zdiv_nonneg_iff)
    ultimately show ?thesis
      using False by (simp add: fuel_level_LiIon_def Let_def u_def [symmetric])
  qed
qed

lemma fuel_level_upper_branch:
  assumes "0 \<le> int_wrap (3870000 - int_wrap (14523 * int_wrap (37835 - int_wrap (10 *
             int_wrap (mV + c_div (int_wrap (mOhm * mA)) 1000)))))"
  shows "0 \<le> fuel_level_LiIon mV mA mOhm \<and> fuel_level_LiIon mV mA mOhm \<le> 100"
proof -
  have "fuel_level_LiIon mV mA mOhm \<le> 100"
    using assms by (simp add: fuel_level_LiIon_def Let_def)
  then show ?thesis
    using fuel_level_nonneg [of mV mA mOhm] by simp
qed

lemma fuel_level_empty: "fuel_level_LiIon 3300 0 0 = 0"
  by (simp add: fuel_level_LiIon_def c_div_def int_wrap_def Let_def)

lemma fuel_level_wraps: "fuel_level_LiIon 0 0 0 = 13365 \<and> fuel_level_LiIon 20000 0 0 = 20865"
  by (simp add: fuel_level_LiIon_def c_div_def int_wrap_def Let_def)

text \<open>
  Claim C1: for every input triple the estimator returns a value in [0,100], and
  \<open>estimate_percent(3300, 0, 0) = 0\<close>. The second half holds (\<open>fuel_level_empty\<close>)
  and so does the first on the square-root branch (\<open>fuel_level_upper_branch\<close>), but
  the linear branch multiplies by \<open>(3756 - 3300) * 1966\<close> and divides by 100000 only:
  at 3.5 V with no load it returns 1792, although the function's own comment promises a
  value between 0 and 100 and 19.66 percent at 3.756 V. No intermediate value leaves
  the 32-bit range at this input.
\<close>

theorem fuel_level_LiIon_out_of_range:
  "fuel_level_LiIon 3500 0 0 = 1792 \<and> \<not> fuel_level_LiIon 3500 0 0 \<le> 100"
  by (simp add: fuel_level_LiIon_def c_div_def int_wrap_def Let_def)

section \<open>Properties of the selector\<close>

subsection \<open>Evaluation on concrete stores\<close>

lemmas store_eval = sysfs_def battery_def read_power_file_def

lemmas atoi_eval =
  atoi_def parse_int_def isspace_def isdigit_def long_saturate_def int_of_long_def Let_def

lemmas body_eval =
  GetPowerInfo_Linux_sys_class_power_supply_def loop_body_def skipped_def
  entry_state_def entry_percent_def entry_seconds_def choose_flag_def

subsection \<open>Skipped entries\<close>

lemma loop_body_skipped: "skipped s n \<Longrightarrow> loop_body s best n = best"
  by (simp add: loop_body_def)

lemma scan_removeAll: "skipped s n \<Longrightarrow> scan s best (removeAll n names) = scan s best names"
  by (induction names arbitrary: best) (auto simp: loop_body_skipped)

lemma scan_all_skipped: "(\<And>n. n \<in> set names \<Longrightarrow> skipped s n) \<Longrightarrow> scan s best names = best"
  by (induction names arbitrary: best) (simp_all add: loop_body_skipped)

lemma excluded_skipped:
  "read_power_file s n ''type'' \<noteq> Some ''Battery\<newline>'' \<or>
   read_power_file s n ''scope'' = Some ''device\<newline>'' \<Longrightarrow> skipped s n"
  by (auto simp: skipped_def split: option.splits)

lemma dot_skipped: "n = ''.'' \<or> n = ''..'' \<Longrightarrow> skipped s n"
  by (auto simp: skipped_def)

subsection \<open>The scan reads only the entries it visits\<close>

lemma read_power_file_cong:
  "attr s' m k = attr s m k \<Longrightarrow> read_power_file s' m k = read_power_file s m k"
  by (simp add: read_power_file_def)

lemma loop_body_cong:
  assumes "\<And>k. attr s' m k = attr s m k"
  shows "loop_body s' best m = loop_body s best m"
proof -
  have "\<And>k. read_power_file s' m k = read_power_file s m k"
    by (rule read_power_file_cong) (rule assms)
  then have eq: "read_power_file s' m = read_power_file s m"
    by (rule ext)
  show ?thesis
    unfolding loop_body_def skipped_def entry_state_def entry_percent_def entry_seconds_def eq ..
qed

lemma scan_cong:
  "(\<And>m k. m \<in> set names \<Longrightarrow> attr s' m k = attr s m k) \<Longrightarrow>
   scan s' best names = scan s best names"
proof (induction names arbitrary: best)
  case Nil
  show ?case by simp
next
  case (Cons m names)
  have "loop_body s' best m = loop_body s best m"
    by (rule loop_body_cong) (simp add: Cons.prems)
  moreover have "scan s' (loop_body s best m) names = scan s (loop_body s best m) names"
    by (rule Cons.IH) (simp add: Cons.prems)
  ultimately show ?case by simp
qed

subsection \<open>Ranges of the reported values\<close>

lemma entry_percent_le_100: "entry_percent s n \<le> 100"
  by (simp add: entry_percent_def Let_def split: option.splits)

lemma loop_body_percent_le_100:
  "percent best \<le> 100 \<Longrightarrow> percent (loop_body s best n) \<le> 100"
  by (simp add: loop_body_def Let_def entry_percent_le_100)

lemma scan_percent_le_100: "percent best \<le> 100 \<Longrightarrow> percent (scan s best names) \<le> 100"
  by (induction names arbitrary: best) (simp_all add: loop_body_percent_le_100)

lemma GetPowerInfo_percent_le_100:
  "GetPowerInfo_Linux_sys_class_power_supply s out = (True, r) \<Longrightarrow> percent r \<le> 100"
  by (auto simp: GetPowerInfo_Linux_sys_class_power_supply_def scan_percent_le_100
           split: option.splits)

lemma capacity_above_100_clamped:
  "read_power_file s n ''capacity'' = Some str \<Longrightarrow> 100 < atoi str \<Longrightarrow> entry_percent s n = 100"
  by (simp add: entry_percent_def Let_def)

lemma capacity_150_reported_as_100:
  "GetPowerInfo_Linux_sys_class_power_supply (battery [(''capacity'', ''150\<newline>'')]) out
     = (True, \<lparr>state = POWERSTATE_UNKNOWN, seconds = - 1, percent = 100\<rparr>)"
  by (simp add: store_eval atoi_eval body_eval)

lemma entry_seconds_range: "entry_seconds s n = - 1 \<or> 0 < entry_seconds s n"
  by (simp add: entry_seconds_def Let_def split: option.splits)

lemma atoi_without_number: "parse_int str = None \<Longrightarrow> atoi str = 0"
  by (simp add: atoi_def)

lemma atoi_in_range:
  "parse_int str = Some v \<Longrightarrow> - (2 ^ 31) \<le> v \<Longrightarrow> v < 2 ^ 31 \<Longrightarrow> atoi str = v"
  by (simp add: atoi_def long_saturate_def int_of_long_def mod_pos_pos_trivial)

section \<open>The claims about the selector\<close>




text \<open>
  Claim C3: after a successful query a percent that is present lies in [0,100]. The upper
  bound holds (\<open>GetPowerInfo_percent_le_100\<close>, and a capacity of 150 is reported as
  100, \<open>capacity_150_reported_as_100\<close>), but line 158 clamps on one side only although
  its comment says "clamp between 0%, 100%": a capacity file reading \<open>-5\<close> is
  returned as percent \<open>-5\<close>, which is neither the sentinel \<open>-1\<close> nor in [0,100].
\<close>

theorem negative_capacity_reported:
  "GetPowerInfo_Linux_sys_class_power_supply (battery [(''capacity'', ''-5\<newline>'')]) idle
     = (True, \<lparr>state = POWERSTATE_UNKNOWN, seconds = - 1, percent = - 5\<rparr>)"
  by (simp add: store_eval atoi_eval body_eval)

text \<open>
  Claim C4, as stated, fails for a capacity text that is not a number: \<open>atoi\<close>
  returns 0 for it, and the entry's percent is the reading 0, not the sentinel.
\<close>

theorem unparsable_capacity_counterexample:
  "read_power_file (battery [(''capacity'', ''abc\<newline>'')]) ''BAT0'' ''capacity'' = Some ''abc\<newline>''
   \<and> parse_int ''abc\<newline>'' = None
   \<and> entry_percent (battery [(''capacity'', ''abc\<newline>'')]) ''BAT0'' = 0
   \<and> entry_percent (battery [(''capacity'', ''abc\<newline>'')]) ''BAT0'' \<noteq> - 1
   \<and> GetPowerInfo_Linux_sys_class_power_supply (battery [(''capacity'', ''abc\<newline>'')]) idle
        = (True, \<lparr>state = POWERSTATE_UNKNOWN, seconds = - 1, percent = 0\<rparr>)"
  by (simp add: store_eval atoi_eval body_eval)

text \<open>
  Claim C4, amended: for every entry whose \<open>capacity\<close> attribute is missing the
  per-entry percent is absent (the sentinel \<open>-1\<close>); when the attribute is there but
  its text holds no number that \<open>atoi\<close> can read, the per-entry percent is 0.
\<close>

theorem capacity_missing_or_without_number:
  "(read_power_file s n ''capacity'' = None \<longrightarrow> entry_percent s n = - 1) \<and>
   (\<forall>str. read_power_file s n ''capacity'' = Some str \<and> parse_int str = None
            \<longrightarrow> entry_percent s n = 0)"
  by (simp add: entry_percent_def atoi_without_number)

theorem capacity_missing_or_without_number_witness:
  "read_power_file (battery []) ''BAT0'' ''capacity'' = None
   \<and> entry_percent (battery []) ''BAT0'' = - 1
   \<and> read_power_file (battery [(''capacity'', ''abc\<newline>'')]) ''BAT0'' ''capacity'' = Some ''abc\<newline>''
   \<and> parse_int ''abc\<newline>'' = None
   \<and> entry_percent (battery [(''capacity'', ''abc\<newline>'')]) ''BAT0'' = 0"
proof -
  have missing: "read_power_file (battery []) ''BAT0'' ''capacity'' = None"
    by (simp add: store_eval)
  have garbled: "read_power_file (battery [(''capacity'', ''abc\<newline>'')]) ''BAT0'' ''capacity''
      = Some ''abc\<newline>''"
    by (simp add: store_eval)
  have nonum: "parse_int ''abc\<newline>'' = None"
    by (simp add: atoi_eval)
  show ?thesis
    using missing garbled nonum
      capacity_missing_or_without_number [of "battery []" "''BAT0''"]
      capacity_missing_or_without_number [of "battery [(''capacity'', ''abc\<newline>'')]" "''BAT0''"]
    by simp
qed

text \<open>
  Claim C5: an entry whose \<open>type\<close> is missing or not exactly "Battery", or whose
  \<open>scope\<close> reads "device", is excluded from selection and never affects the snapshot,
  whatever its other attributes are. The loop leaves the running best as it is at such
  an entry, the scan is the scan without it, and a store that differs only in the other
  attributes of that entry gives the same result.
\<close>

theorem excluded_entry_ignored:
  assumes excl: "read_power_file s n ''type'' \<noteq> Some ''Battery\<newline>'' \<or>
                 read_power_file s n ''scope'' = Some ''device\<newline>''"
    and same_listing: "listing s' = listing s"
    and same_attrs: "\<forall>m k. m \<noteq> n \<or> k = ''type'' \<or> k = ''scope'' \<longrightarrow> attr s' m k = attr s m k"
  shows "loop_body s best n = best
       \<and> scan s best (removeAll n names) = scan s best names
       \<and> GetPowerInfo_Linux_sys_class_power_supply s' out
           = GetPowerInfo_Linux_sys_class_power_supply s out"
proof (intro conjI)
  have skip: "skipped s n"
    using excl by (rule excluded_skipped)
  show "loop_body s best n = best"
    using skip by (rule loop_body_skipped)
  show "scan s best (removeAll n names) = scan s best names"
    using skip by (rule scan_removeAll)
  have "read_power_file s' n ''type'' = read_power_file s n ''type''"
       "read_power_file s' n ''scope'' = read_power_file s n ''scope''"
    using same_attrs by (simp_all add: read_power_file_def)
  then have skip': "skipped s' n"
    using excl excluded_skipped [of s' n] by simp
  show "GetPowerInfo_Linux_sys_class_power_supply s' out
          = GetPowerInfo_Linux_sys_class_power_supply s out"
  proof (cases "listing s")
    case None
    then show ?thesis
      using same_listing by (simp add: GetPowerInfo_Linux_sys_class_power_supply_def)
  next
    case (Some ns)
    have "scan s' b ns = scan s b ns" for b
    proof -
      have "scan s' b ns = scan s' b (removeAll n ns)"
        using skip' by (simp add: scan_removeAll)
      also have "\<dots> = scan s b (removeAll n ns)"
        by (rule scan_cong) (simp add: same_attrs)
      also have "\<dots> = scan s b ns"
        using skip by (rule scan_removeAll)
      finally show ?thesis .
    qed
    then show ?thesis
      using Some same_listing by (simp add: GetPowerInfo_Linux_sys_class_power_supply_def)
  qed
qed

theorem excluded_entry_ignored_witness:
  "read_power_file controller_and_system ''pad'' ''scope'' = Some ''device\<newline>''
   \<and> listing controller_changed = listing controller_and_system
   \<and> attr controller_changed ''pad'' ''capacity'' \<noteq> attr controller_and_system ''pad'' ''capacity''
   \<and> loop_body controller_and_system idle ''pad'' = idle
   \<and> GetPowerInfo_Linux_sys_class_power_supply controller_changed idle
        = GetPowerInfo_Linux_sys_class_power_supply controller_and_system idle
   \<and> GetPowerInfo_Linux_sys_class_power_supply controller_and_system idle
        = (True, \<lparr>state = POWERSTATE_CHARGING, seconds = - 1, percent = 50\<rparr>)"
proof -
  have h0: "read_power_file controller_and_system ''pad'' ''scope'' = Some ''device\<newline>''"
    by (simp add: controller_and_system_def store_eval)
  then have h1: "read_power_file controller_and_system ''pad'' ''type'' \<noteq> Some ''Battery\<newline>'' \<or>
            read_power_file controller_and_system ''pad'' ''scope'' = Some ''device\<newline>''"
    by (rule disjI2)
  have h2: "listing controller_changed = listing controller_and_system"
    by (simp add: controller_changed_def controller_and_system_def store_eval)
  have h3: "\<forall>m k. m \<noteq> ''pad'' \<or> k = ''type'' \<or> k = ''scope'' \<longrightarrow>
              attr controller_changed m k = attr controller_and_system m k"
    by (auto simp: controller_changed_def controller_and_system_def store_eval)
  have h4: "attr controller_changed ''pad'' ''capacity'' \<noteq> attr controller_and_system ''pad'' ''capacity''"
    by (simp add: controller_changed_def controller_and_system_def store_eval)
  have h5: "GetPowerInfo_Linux_sys_class_power_supply controller_and_system idle
        = (True, \<lparr>state = POWERSTATE_CHARGING, seconds = - 1, percent = 50\<rparr>)"
    by (simp add: controller_and_system_def store_eval atoi_eval body_eval)
  note r = excluded_entry_ignored [OF h1 h2 h3, of idle Nil idle]
  have h6: "loop_body controller_and_system idle ''pad'' = idle"
    using r by (rule conjunct1)
  have h7: "GetPowerInfo_Linux_sys_class_power_supply controller_changed idle
        = GetPowerInfo_Linux_sys_class_power_supply controller_and_system idle"
    using r by simp
  show ?thesis
    by (intro conjI h0 h2 h4 h5 h6 h7)
qed

text \<open>
  Claim C6: the per-entry state is NoBattery when \<open>present\<close> exists and reads "0";
  otherwise it follows \<open>status\<close>: "Charging" gives Charging, "Discharging" gives
  OnBattery, "Full" and "Not charging" give Charged, and a missing or unrecognised status
  gives Unknown. The texts are compared with their trailing newline, as sysfs writes them.
\<close>

theorem entry_state_rule:
  "(read_power_file s n ''present'' = Some ''0\<newline>'' \<longrightarrow> entry_state s n = POWERSTATE_NO_BATTERY) \<and>
   (read_power_file s n ''present'' \<noteq> Some ''0\<newline>'' \<longrightarrow>
      (read_power_file s n ''status'' = Some ''Charging\<newline>'' \<longrightarrow>
         entry_state s n = POWERSTATE_CHARGING) \<and>
      (read_power_file s n ''status'' = Some ''Discharging\<newline>'' \<longrightarrow>
         entry_state s n = POWERSTATE_ON_BATTERY) \<and>
      (read_power_file s n ''status'' = Some ''Full\<newline>'' \<or>
       read_power_file s n ''status'' = Some ''Not charging\<newline>'' \<longrightarrow>
         entry_state s n = POWERSTATE_CHARGED) \<and>
      (read_power_file s n ''status'' \<notin>
         {Some ''Charging\<newline>'', Some ''Discharging\<newline>'', Some ''Full\<newline>'',
          Some ''Not charging\<newline>''} \<longrightarrow>
         entry_state s n = POWERSTATE_UNKNOWN))"
  by (cases "read_power_file s n ''status''") (simp_all add: entry_state_def)

theorem entry_state_rule_witness:
  "entry_state (battery [(''present'', ''0\<newline>''), (''status'', ''Charging\<newline>'')]) ''BAT0''
     = POWERSTATE_NO_BATTERY
   \<and> entry_state (battery [(''present'', ''1\<newline>''), (''status'', ''Charging\<newline>'')]) ''BAT0''
     = POWERSTATE_CHARGING
   \<and> entry_state (battery [(''status'', ''Discharging\<newline>'')]) ''BAT0'' = POWERSTATE_ON_BATTERY
   \<and> entry_state (battery [(''status'', ''Full\<newline>'')]) ''BAT0'' = POWERSTATE_CHARGED
   \<and> entry_state (battery [(''status'', ''Not charging\<newline>'')]) ''BAT0'' = POWERSTATE_CHARGED
   \<and> entry_state (battery []) ''BAT0'' = POWERSTATE_UNKNOWN
   \<and> entry_state (battery [(''status'', ''Unknown\<newline>'')]) ''BAT0'' = POWERSTATE_UNKNOWN"
proof (intro conjI)
  show "entry_state (battery [(''present'', ''0\<newline>''), (''status'', ''Charging\<newline>'')]) ''BAT0''
     = POWERSTATE_NO_BATTERY"
    using entry_state_rule [of "battery [(''present'', ''0\<newline>''), (''status'', ''Charging\<newline>'')]" "''BAT0''"]
    by (simp add: store_eval)
  show "entry_state (battery [(''present'', ''1\<newline>''), (''status'', ''Charging\<newline>'')]) ''BAT0''
     = POWERSTATE_CHARGING"
    using entry_state_rule [of "battery [(''present'', ''1\<newline>''), (''status'', ''Charging\<newline>'')]" "''BAT0''"]
    by (simp add: store_eval)
  show "entry_state (battery [(''status'', ''Discharging\<newline>'')]) ''BAT0'' = POWERSTATE_ON_BATTERY"
    using entry_state_rule [of "battery [(''status'', ''Discharging\<newline>'')]" "''BAT0''"]
    by (simp add: store_eval)
  show "entry_state (battery [(''status'', ''Full\<newline>'')]) ''BAT0'' = POWERSTATE_CHARGED"
    using entry_state_rule [of "battery [(''status'', ''Full\<newline>'')]" "''BAT0''"]
    by (simp add: store_eval)
  show "entry_state (battery [(''status'', ''Not charging\<newline>'')]) ''BAT0'' = POWERSTATE_CHARGED"
    using entry_state_rule [of "battery [(''status'', ''Not charging\<newline>'')]" "''BAT0''"]
    by (simp add: store_eval)
  show "entry_state (battery []) ''BAT0'' = POWERSTATE_UNKNOWN"
    using entry_state_rule [of "battery []" "''BAT0''"]
    by (simp add: store_eval)
  show "entry_state (battery [(''status'', ''Unknown\<newline>'')]) ''BAT0'' = POWERSTATE_UNKNOWN"
    using entry_state_rule [of "battery [(''status'', ''Unknown\<newline>'')]" "''BAT0''"]
    by (simp add: store_eval)
qed




text \<open>
  Claim C8: when listing the namespace fails, the function returns failure and the three
  outputs hold what they held before the call.
\<close>

theorem enumeration_failure_writes_nothing:
  assumes "listing s = None"
  shows "GetPowerInfo_Linux_sys_class_power_supply s out = (False, out)"
  using assms by (simp add: GetPowerInfo_Linux_sys_class_power_supply_def)

theorem enumeration_failure_writes_nothing_witness:
  "listing no_sysfs = None
   \<and> GetPowerInfo_Linux_sys_class_power_supply no_sysfs idle
       = (False, \<lparr>state = POWERSTATE_CHARGED, seconds = 7, percent = 42\<rparr>)"
proof -
  have h: "listing no_sysfs = None"
    by (simp add: no_sysfs_def)
  show ?thesis
    using h enumeration_failure_writes_nothing [OF h, of idle] by (simp add: idle_def)
qed

text \<open>
  Claim C9: when the namespace lists successfully and every entry is filtered out (or
  there is none), the query succeeds with state NoBattery, seconds absent and percent
  absent.
\<close>

theorem no_qualifying_entry_default:
  assumes "listing s = Some names"
    and "\<forall>n \<in> set names. n = ''.'' \<or> n = ''..''
            \<or> read_power_file s n ''type'' \<noteq> Some ''Battery\<newline>''
            \<or> read_power_file s n ''scope'' = Some ''device\<newline>''"
  shows "GetPowerInfo_Linux_sys_class_power_supply s out
           = (True, \<lparr>state = POWERSTATE_NO_BATTERY, seconds = - 1, percent = - 1\<rparr>)"
proof -
  have "skipped s n" if "n \<in> set names" for n
    using assms(2) that dot_skipped [of n s] excluded_skipped [of s n] by blast
  then have "scan s best names = best" for best
    by (rule scan_all_skipped)
  then show ?thesis
    using assms(1) by (simp add: GetPowerInfo_Linux_sys_class_power_supply_def)
qed

theorem no_qualifying_entry_default_witness:
  "listing adapter_and_controller = Some [''.'', ''..'', ''AC'', ''pad'']
   \<and> read_power_file adapter_and_controller ''AC'' ''type'' = Some ''Mains\<newline>''
   \<and> read_power_file adapter_and_controller ''pad'' ''scope'' = Some ''device\<newline>''
   \<and> GetPowerInfo_Linux_sys_class_power_supply adapter_and_controller idle
        = (True, \<lparr>state = POWERSTATE_NO_BATTERY, seconds = - 1, percent = - 1\<rparr>)
   \<and> listing (sysfs []) = Some [''.'', ''..'']
   \<and> GetPowerInfo_Linux_sys_class_power_supply (sysfs []) idle
        = (True, \<lparr>state = POWERSTATE_NO_BATTERY, seconds = - 1, percent = - 1\<rparr>)"
proof -
  have l1: "listing adapter_and_controller = Some [''.'', ''..'', ''AC'', ''pad'']"
    by (simp add: adapter_and_controller_def store_eval)
  have ac: "read_power_file adapter_and_controller ''AC'' ''type'' = Some ''Mains\<newline>''"
    by (simp add: adapter_and_controller_def store_eval)
  have pad: "read_power_file adapter_and_controller ''pad'' ''scope'' = Some ''device\<newline>''"
    by (simp add: adapter_and_controller_def store_eval)
  have f1: "\<forall>n \<in> set [''.'', ''..'', ''AC'', ''pad'']. n = ''.'' \<or> n = ''..''
            \<or> read_power_file adapter_and_controller n ''type'' \<noteq> Some ''Battery\<newline>''
            \<or> read_power_file adapter_and_controller n ''scope'' = Some ''device\<newline>''"
    using ac pad by simp
  have l2: "listing (sysfs []) = Some [''.'', ''..'']"
    by (simp add: store_eval)
  have f2: "\<forall>n \<in> set [''.'', ''..'']. n = ''.'' \<or> n = ''..''
            \<or> read_power_file (sysfs []) n ''type'' \<noteq> Some ''Battery\<newline>''
            \<or> read_power_file (sysfs []) n ''scope'' = Some ''device\<newline>''"
    by simp
  show ?thesis
    by (intro conjI l1 ac pad l2
          no_qualifying_entry_default [OF l1 f1] no_qualifying_entry_default [OF l2 f2])
qed



end
